theory Spec2Isabelle
  imports Main
begin

section \<open>Strings\<close>

text \<open>
  A JavaScript string is a sequence of UTF-16 code units; the prefix rules of the command
  interpreter contain Hangul syllables, so a code unit is a natural number here and not
  a byte. \<open>js\<close> reads an ASCII literal as such a string.
\<close>

type_synonym code_unit = nat
type_synonym jstring = "code_unit list"

definition js :: "string \<Rightarrow> jstring" where
  "js s = map of_char s"

text \<open>
  \<open>String.prototype.trim\<close> removes the code units of WhiteSpace and LineTerminator from
  both ends: TAB, LF, VT, FF, CR, SP, NBSP, U+1680, U+2000 .. U+200A, U+2028, U+2029,
  U+202F, U+205F, U+3000 and U+FEFF.
\<close>

definition isWhiteSpace :: "code_unit \<Rightarrow> bool" where
  "isWhiteSpace c = (c \<in> {9, 10, 11, 12, 13, 32, 160, 5760, 8232, 8233, 8239, 8287, 12288, 65279}
     \<or> (8192 \<le> c \<and> c \<le> 8202))"

definition trim :: "jstring \<Rightarrow> jstring" where
  "trim s = rev (dropWhile isWhiteSpace (rev (dropWhile isWhiteSpace s)))"

text \<open>\<open>s.startsWith(p)\<close> and \<open>s.substring(n)\<close>, on code units.\<close>

definition startsWith :: "jstring \<Rightarrow> jstring \<Rightarrow> bool" where
  "startsWith s p = (take (length p) s = p)"

definition substring :: "jstring \<Rightarrow> nat \<Rightarrow> jstring" where
  "substring s n = drop n s"

section \<open>The conversation log (\<open>useLogStore\<close>)\<close>

datatype Role = User | Agent | System

text \<open>The field \<open>text\<close> of a turn is written \<open>text'\<close>.\<close>

record ConversationTurn =
  role :: Role
  text' :: jstring
  isFinal :: bool
  timestamp :: nat

record LogState =
  turns :: "ConversationTurn list"

text \<open>
  \<open>addTurn\<close> takes a turn without its timestamp and stamps it with \<open>new Date()\<close>; the
  reading of the clock is the first argument.
\<close>

definition addTurn :: "nat \<Rightarrow> Role \<Rightarrow> jstring \<Rightarrow> bool \<Rightarrow> LogState \<Rightarrow> LogState" where
  "addTurn now r t f st =
     st\<lparr>turns := turns st @ [\<lparr>role = r, text' = t, isFinal = f, timestamp = now\<rparr>]\<rparr>"

text \<open>
  The argument of \<open>updateLastTurn\<close> is a \<open>Partial\<close> of the fields \<open>text\<close> and \<open>isFinal\<close>:
  a key that is absent is \<open>None\<close>, and the spread keeps the old field for it.
\<close>

record TurnUpdate =
  upd_text :: "jstring option"
  upd_isFinal :: "bool option"

definition spread :: "ConversationTurn \<Rightarrow> TurnUpdate \<Rightarrow> ConversationTurn" where
  "spread t u =
     t\<lparr>text' := (case upd_text u of None \<Rightarrow> text' t | Some x \<Rightarrow> x),
       isFinal := (case upd_isFinal u of None \<Rightarrow> isFinal t | Some b \<Rightarrow> b)\<rparr>"

definition updateLastTurn :: "TurnUpdate \<Rightarrow> LogState \<Rightarrow> LogState" where
  "updateLastTurn u st =
     (if length (turns st) = 0 then st
      else let newTurns = turns st;
               lastTurnIndex = length newTurns - 1
           in st\<lparr>turns := newTurns[lastTurnIndex := spread (newTurns ! lastTurnIndex) u]\<rparr>)"

definition clearTurns :: "LogState \<Rightarrow> LogState" where
  "clearTurns st = st\<lparr>turns := []\<rparr>"

section \<open>The stores, the session flags and the calls made on them\<close>

text \<open>
  The handlers read and write three stores (\<open>useLogStore\<close>, \<open>useSettings\<close>, \<open>useUI\<close>) and
  the flags of the hook (\<open>connected\<close>, \<open>quantumModeActive\<close>), and they call \<open>connect\<close>,
  \<open>disconnect\<close> and \<open>client.sendToolResponse\<close>. The state below holds the stores and the
  flags; \<open>calls\<close> lists, in the order they are made, the calls of a handler on its
  collaborators. \<open>new Date()\<close> reads a clock: its successive readings are \<open>clock 0\<close>,
  \<open>clock 1\<close>, ... and \<open>clockReads\<close> counts the readings taken.
\<close>

record FunctionResponse =
  fr_id :: jstring
  fr_name :: jstring
  fr_response :: "(jstring \<times> jstring) list"

datatype Call =
    AddTurn Role jstring bool
  | UpdateLastTurn TurnUpdate
  | AppendToCoreMemory jstring
  | ToggleSidebar
  | Connect
  | Disconnect
  | SendToolResponse "FunctionResponse list"

record World =
  logStore :: LogState
  coreMemory :: jstring
  isSidebarOpen :: bool
  connected :: bool
  quantumModeActive :: bool
  clock :: "nat \<Rightarrow> nat"
  clockReads :: nat
  calls :: "Call list"

definition storeAddTurn :: "Role \<Rightarrow> jstring \<Rightarrow> bool \<Rightarrow> World \<Rightarrow> World" where
  "storeAddTurn r t f w =
     w\<lparr>logStore := addTurn (clock w (clockReads w)) r t f (logStore w),
       clockReads := Suc (clockReads w),
       calls := calls w @ [AddTurn r t f]\<rparr>"

definition storeUpdateLastTurn :: "TurnUpdate \<Rightarrow> World \<Rightarrow> World" where
  "storeUpdateLastTurn u w =
     w\<lparr>logStore := updateLastTurn u (logStore w), calls := calls w @ [UpdateLastTurn u]\<rparr>"

text \<open>\<open>appendToCoreMemory\<close> of \<open>useSettings\<close>: an empty string is falsy.\<close>

definition appendToCoreMemory :: "jstring \<Rightarrow> World \<Rightarrow> World" where
  "appendToCoreMemory memory w =
     w\<lparr>coreMemory := (if coreMemory w \<noteq> [] then coreMemory w @ [10] @ js ''- '' @ memory
                      else js ''- '' @ memory),
       calls := calls w @ [AppendToCoreMemory memory]\<rparr>"

definition toggleSidebar :: "World \<Rightarrow> World" where
  "toggleSidebar w = w\<lparr>isSidebarOpen := \<not> isSidebarOpen w, calls := calls w @ [ToggleSidebar]\<rparr>"

text \<open>
  \<open>connect\<close> is asynchronous and the handler does not await it: it tears the client down
  and asks it to connect (or rejects its promise when no configuration is set, which the
  handler does not see), and the flag \<open>connected\<close> changes only when the client later
  emits its open event. \<open>disconnect\<close> tears the client down and clears both flags.
\<close>

definition connect :: "World \<Rightarrow> World" where
  "connect w = w\<lparr>calls := calls w @ [Connect]\<rparr>"

definition disconnect :: "World \<Rightarrow> World" where
  "disconnect w = w\<lparr>connected := False, quantumModeActive := False, calls := calls w @ [Disconnect]\<rparr>"

definition sendToolResponse :: "FunctionResponse list \<Rightarrow> World \<Rightarrow> World" where
  "sendToolResponse rs w = w\<lparr>calls := calls w @ [SendToolResponse rs]\<rparr>"

section \<open>Transcript handlers of the streaming console\<close>

definition lastTurnOf :: "World \<Rightarrow> ConversationTurn option" where
  "lastTurnOf w =
     (let currentTurns = turns (logStore w)
      in if length currentTurns > 0 then Some (currentTurns ! (length currentTurns - 1)) else None)"

definition console_onInputTranscription :: "World \<Rightarrow> jstring \<Rightarrow> bool \<Rightarrow> World" where
  "console_onInputTranscription w t f =
     (case lastTurnOf w of
        None \<Rightarrow> storeAddTurn User t f w
      | Some lastTurn \<Rightarrow>
          if role lastTurn = User \<and> \<not> isFinal lastTurn
          then storeUpdateLastTurn \<lparr>upd_text = Some (text' lastTurn @ t), upd_isFinal = Some f\<rparr> w
          else storeAddTurn User t f w)"

definition console_onOutputTranscription :: "World \<Rightarrow> jstring \<Rightarrow> bool \<Rightarrow> World" where
  "console_onOutputTranscription w t f =
     (case lastTurnOf w of
        None \<Rightarrow> storeAddTurn Agent t f w
      | Some lastTurn \<Rightarrow>
          if role lastTurn = Agent \<and> \<not> isFinal lastTurn
          then storeUpdateLastTurn \<lparr>upd_text = Some (text' lastTurn @ t), upd_isFinal = Some f\<rparr> w
          else storeAddTurn Agent t f w)"

section \<open>The command interpreter (\<open>onInputTranscription\<close> of \<open>useLiveApi\<close>)\<close>

text \<open>
  \<open>String.prototype.toLowerCase\<close> is the Unicode case mapping of the platform. The
  interpreter takes it as its first argument \<open>lc\<close>, and the theorems hold for every such
  function unless they say what they ask of it. \<open>toLowerCaseAscii\<close> is that mapping on
  text whose only cased letters are A to Z.
\<close>

definition toLowerCaseAscii :: "jstring \<Rightarrow> jstring" where
  "toLowerCaseAscii s = map (\<lambda>c. if 65 \<le> c \<and> c \<le> 90 then c + 32 else c) s"

text \<open>\<open>replace(/[.,?]/g, '')\<close>: every code unit that is a full stop, a comma or a question
  mark is deleted.\<close>

definition isPunct :: "code_unit \<Rightarrow> bool" where
  "isPunct c = (c = 46 \<or> c = 44 \<or> c = 63)"

fun replacePunct :: "jstring \<Rightarrow> jstring" where
  "replacePunct [] = []"
| "replacePunct (c # cs) = (if isPunct c then replacePunct cs else c # replacePunct cs)"

definition command :: "(jstring \<Rightarrow> jstring) \<Rightarrow> jstring \<Rightarrow> jstring" where
  "command lc t = replacePunct (trim (lc t))"

definition quoted :: "jstring \<Rightarrow> jstring" where
  "quoted s = [34] @ s @ [34]"

definition addLog :: "jstring \<Rightarrow> World \<Rightarrow> World" where
  "addLog t w = storeAddTurn System t True w"

definition rememberPrefixes :: "jstring list" where
  "rememberPrefixes =
     [js ''remember this'',
      js ''make a note'',
      [0xC774, 0xAC83, 0xC744, 0x20, 0xAE30, 0xC5B5, 0xD574],
      [0xBA54, 0xBAA8, 0xD574, 0x20, 0xB46C]]"

definition contentToRemember :: "jstring \<Rightarrow> jstring \<Rightarrow> jstring" where
  "contentToRemember originalText prefix =
     (let c = trim (substring originalText (length prefix))
      in if startsWith c (js '':'') then trim (substring c 1) else c)"

text \<open>
  The loop over the prefixes: \<open>Some\<close> is the state at the early return of the handler,
  \<open>None\<close> says that the loop ran to its end.
\<close>

fun rememberLoop :: "(jstring \<Rightarrow> jstring) \<Rightarrow> jstring \<Rightarrow> jstring list \<Rightarrow> World \<Rightarrow> World option" where
  "rememberLoop lc originalText [] w = None"
| "rememberLoop lc originalText (prefix # rest) w =
     (if startsWith (lc originalText) prefix
      then let c = contentToRemember originalText prefix
           in if c \<noteq> []
              then Some (addLog (js ''Added to Core Memory: '' @ quoted c) (appendToCoreMemory c w))
              else rememberLoop lc originalText rest w
      else rememberLoop lc originalText rest w)"

definition openSettingsCommands :: "jstring list" where
  "openSettingsCommands = [js ''open settings'', js ''show settings'']"

definition closeSettingsCommands :: "jstring list" where
  "closeSettingsCommands = [js ''close settings'', js ''hide settings'']"

definition startCommands :: "jstring list" where
  "startCommands = [js ''start stream'', js ''connect'', js ''start connection'']"

definition stopCommands :: "jstring list" where
  "stopCommands = [js ''stop stream'', js ''disconnect'', js ''end connection'', js ''stop'']"

definition recallCommands :: "jstring list" where
  "recallCommands =
     [js ''what did i say'', js ''what did i just say'',
      js ''unable to recall what i stated'', js ''repeat that'']"

definition recognized :: "jstring \<Rightarrow> jstring" where
  "recognized cmd = js ''Voice command recognized: '' @ quoted cmd"

definition noRecord :: jstring where
  "noRecord = js ''I don'' @ [39] @ js ''t have a record of what you last said.''"

definition recall :: "jstring \<Rightarrow> World \<Rightarrow> World" where
  "recall cmd w =
     (let w1 = addLog (recognized cmd) w;
          lastUserTurn = find (\<lambda>turn. role turn = User \<and> isFinal turn) (rev (turns (logStore w1)))
      in case lastUserTurn of
           Some turn \<Rightarrow> addLog (js ''You said: '' @ quoted (text' turn)) w1
         | None \<Rightarrow> addLog noRecord w1)"

definition onInputTranscription :: "(jstring \<Rightarrow> jstring) \<Rightarrow> World \<Rightarrow> jstring \<Rightarrow> bool \<Rightarrow> World" where
  "onInputTranscription lc w t final =
     (if \<not> final then w
      else
        let cmd = command lc t;
            originalText = trim t
        in case rememberLoop lc originalText rememberPrefixes w of
             Some w' \<Rightarrow> w'
           | None \<Rightarrow>
               if cmd \<in> set openSettingsCommands
               then (if \<not> isSidebarOpen w then addLog (recognized cmd) (toggleSidebar w) else w)
               else if cmd \<in> set closeSettingsCommands
               then (if isSidebarOpen w then addLog (recognized cmd) (toggleSidebar w) else w)
               else if cmd \<in> set startCommands
               then (if \<not> connected w then addLog (recognized cmd) (connect w) else w)
               else if cmd \<in> set stopCommands
               then (if connected w then addLog (recognized cmd) (disconnect w) else w)
               else if cmd \<in> set recallCommands
               then recall cmd w
               else w)"

section \<open>The tool-call bridge (\<open>onToolCall\<close>)\<close>

text \<open>
  An invocation carries its id, its name and its arguments. \<open>JSON.stringify\<close> with an
  indentation of two is taken as an argument: \<open>sa\<close> serialises the arguments of an
  invocation, \<open>sr\<close> the batch of responses.
\<close>

record 'a LiveFunctionCall =
  fc_id :: jstring
  fc_name :: jstring
  fc_args :: 'a

definition fence :: jstring where
  "fence = [96, 96, 96]"

definition triggerMessage :: "('a \<Rightarrow> jstring) \<Rightarrow> 'a LiveFunctionCall \<Rightarrow> jstring" where
  "triggerMessage sa fc =
     js ''Triggering function call: **'' @ fc_name fc @ js ''**'' @ [10] @ fence @ js ''json'' @ [10]
       @ sa (fc_args fc) @ [10] @ fence"

definition responseMessage :: "(FunctionResponse list \<Rightarrow> jstring) \<Rightarrow> FunctionResponse list \<Rightarrow> jstring" where
  "responseMessage sr rs =
     js ''Function call response:'' @ [10] @ fence @ js ''json'' @ [10] @ sr rs @ [10] @ fence"

definition okResult :: "(jstring \<times> jstring) list" where
  "okResult = [(js ''result'', js ''ok'')]"

fun toolCallLoop ::
  "('a \<Rightarrow> jstring) \<Rightarrow> 'a LiveFunctionCall list \<Rightarrow> World \<Rightarrow> FunctionResponse list
     \<Rightarrow> World \<times> FunctionResponse list" where
  "toolCallLoop sa [] w functionResponses = (w, functionResponses)"
| "toolCallLoop sa (fc # fcs) w functionResponses =
     toolCallLoop sa fcs
       (storeAddTurn System (triggerMessage sa fc) True w)
       (functionResponses @ [\<lparr>fr_id = fc_id fc, fr_name = fc_name fc, fr_response = okResult\<rparr>])"

definition onToolCall ::
  "('a \<Rightarrow> jstring) \<Rightarrow> (FunctionResponse list \<Rightarrow> jstring) \<Rightarrow> 'a LiveFunctionCall list \<Rightarrow> World \<Rightarrow> World" where
  "onToolCall sa sr functionCalls w =
     (case toolCallLoop sa functionCalls w [] of
        (w1, functionResponses) \<Rightarrow>
          sendToolResponse functionResponses
            (if length functionResponses > 0
             then storeAddTurn System (responseMessage sr functionResponses) True w1
             else w1))"

section \<open>The one-shot text generation (\<open>generateText\<close>)\<close>

text \<open>
  The body of \<open>generateText\<close> constructs the client of the service and awaits one request;
  either step may throw. The two steps are arguments: \<open>Inl\<close> is a thrown exception. The
  text of a response is the getter \<open>response.text\<close>, which is a string or, for a response
  that carries no text, \<open>undefined\<close>: \<open>Some\<close> of the string, or \<open>None\<close>. The function returns
  that value as it is. Its result is \<open>Inl\<close> where an exception would leave the function,
  and \<open>Inr\<close> of the value its promise resolves to otherwise.
\<close>

definition generateFallback :: jstring where
  "generateFallback = js ''An error occurred while trying to generate a response.''"

definition generateText ::
  "('e + unit) \<Rightarrow> (jstring \<Rightarrow> 'e + jstring option) \<Rightarrow> jstring \<Rightarrow> 'e + jstring option" where
  "generateText newClient generateContent prompt =
     (case newClient of
        Inl e \<Rightarrow> Inr (Some generateFallback)
      | Inr ai \<Rightarrow>
          (case generateContent prompt of
             Inl e \<Rightarrow> Inr (Some generateFallback)
           | Inr response_text \<Rightarrow> Inr response_text))"

section \<open>Notions used in the statements, and example states\<close>

text \<open>
  The specification speaks of one transcript accumulator per role: the text of the role's
  most recent turn while that turn is not final.
\<close>

definition lastTurnFor :: "Role \<Rightarrow> ConversationTurn list \<Rightarrow> ConversationTurn option" where
  "lastTurnFor r ts = find (\<lambda>t. role t = r) (rev ts)"

definition spec_accumulator :: "Role \<Rightarrow> ConversationTurn list \<Rightarrow> jstring option" where
  "spec_accumulator r ts =
     (case lastTurnFor r ts of
        None \<Rightarrow> None
      | Some t \<Rightarrow> if isFinal t then None else Some (text' t))"

text \<open>A log in which an agent turn follows a user turn that is still open.\<close>

definition interleaved :: World where
  "interleaved =
     \<lparr>logStore = \<lparr>turns =
        [\<lparr>role = User, text' = js ''hel'', isFinal = False, timestamp = 1\<rparr>,
         \<lparr>role = Agent, text' = js ''hi'', isFinal = False, timestamp = 2\<rparr>]\<rparr>,
      coreMemory = [], isSidebarOpen = True, connected = True, quantumModeActive = False,
      clock = (\<lambda>n. 3 + n), clockReads = 0, calls = []\<rparr>"

text \<open>The stores as they are created, before any session.\<close>

definition freshWorld :: World where
  "freshWorld =
     \<lparr>logStore = \<lparr>turns = []\<rparr>, coreMemory = [], isSidebarOpen = True, connected = False,
      quantumModeActive = False, clock = (\<lambda>n. n), clockReads = 0, calls = []\<rparr>"

text \<open>
  The normalisation as the specification words it: lower-cased, trimmed, and the
  punctuation at the end of the text stripped.
\<close>

definition stripTrailingPunct :: "jstring \<Rightarrow> jstring" where
  "stripTrailingPunct s = rev (dropWhile isPunct (rev s))"

definition spec_normalize :: "(jstring \<Rightarrow> jstring) \<Rightarrow> jstring \<Rightarrow> jstring" where
  "spec_normalize lc t = stripTrailingPunct (trim (lc t))"

text \<open>A state with an open session.\<close>

definition liveWorld :: World where
  "liveWorld = freshWorld\<lparr>connected := True, quantumModeActive := True\<rparr>"

text \<open>An invocation of a tool, with a number standing for its arguments.\<close>

definition lookupOrder :: "nat LiveFunctionCall" where
  "lookupOrder = \<lparr>fc_id = js ''call-1'', fc_name = js ''lookup_order'', fc_args = 7\<rparr>"

text \<open>
  The payload of a remember rule as the specification words it: the remainder after the
  prefix, one leading colon stripped, then trimmed.
\<close>

definition spec_payload :: "jstring \<Rightarrow> jstring" where
  "spec_payload remainder =
     trim (if startsWith remainder (js '':'') then substring remainder 1 else remainder)"

text \<open>
  The exact-match rules of the handler as a table, in the order in which the handler
  tests them. A row has its phrases, its action, and the guard on the state under which
  the action runs; the row of recall has no guard. The first row that holds the command
  decides.
\<close>

record Rule =
  phrases :: "jstring list"
  guard :: "(World \<Rightarrow> bool) option"
  action :: "jstring \<Rightarrow> World \<Rightarrow> World"

definition exactRules :: "Rule list" where
  "exactRules =
     [\<lparr>phrases = openSettingsCommands, guard = Some (\<lambda>w. \<not> isSidebarOpen w),
        action = (\<lambda>cmd w. addLog (recognized cmd) (toggleSidebar w))\<rparr>,
      \<lparr>phrases = closeSettingsCommands, guard = Some (\<lambda>w. isSidebarOpen w),
        action = (\<lambda>cmd w. addLog (recognized cmd) (toggleSidebar w))\<rparr>,
      \<lparr>phrases = startCommands, guard = Some (\<lambda>w. \<not> connected w),
        action = (\<lambda>cmd w. addLog (recognized cmd) (connect w))\<rparr>,
      \<lparr>phrases = stopCommands, guard = Some (\<lambda>w. connected w),
        action = (\<lambda>cmd w. addLog (recognized cmd) (disconnect w))\<rparr>,
      \<lparr>phrases = recallCommands, guard = None, action = recall\<rparr>]"

fun dispatch :: "Rule list \<Rightarrow> jstring \<Rightarrow> World \<Rightarrow> World" where
  "dispatch [] cmd w = w"
| "dispatch (r # rs) cmd w =
     (if cmd \<in> set (phrases r)
      then (case guard r of
              None \<Rightarrow> action r cmd w
            | Some g \<Rightarrow> if g w then action r cmd w else w)
      else dispatch rs cmd w)"

text \<open>The calls that are actions of the interpreter; a log entry is not one.\<close>

fun isAction :: "Call \<Rightarrow> bool" where
  "isAction (AppendToCoreMemory m) = True"
| "isAction ToggleSidebar = True"
| "isAction Connect = True"
| "isAction Disconnect = True"
| "isAction c = False"

text \<open>All the phrases of the exact-match rules.\<close>

definition exactCommands :: "jstring list" where
  "exactCommands =
     openSettingsCommands @ closeSettingsCommands @ startCommands @ stopCommands @ recallCommands"

text \<open>A state whose log holds a finished exchange.\<close>

definition talkedWorld :: World where
  "talkedWorld =
     \<lparr>logStore = \<lparr>turns =
        [\<lparr>role = User, text' = js ''Buy milk.'', isFinal = True, timestamp = 1\<rparr>,
         \<lparr>role = Agent, text' = js ''Noted.'', isFinal = True, timestamp = 2\<rparr>]\<rparr>,
      coreMemory = [], isSidebarOpen = False, connected = True, quantumModeActive = False,
      clock = (\<lambda>n. 3 + n), clockReads = 0, calls = []\<rparr>"

section \<open>The conversation log\<close>

text \<open>
  C10. On an empty log \<open>updateLastTurn\<close> returns the state as it is. On a non-empty log
  the number of turns stays, every turn but the last is the turn it was, and the last
  turn keeps its role and its timestamp; its text and its finality are those of the
  update where the update gives them, and the old ones otherwise.
\<close>

theorem updateLastTurn_frame:
  "(turns st = [] \<longrightarrow> updateLastTurn u st = st) \<and>
   (turns st \<noteq> [] \<longrightarrow>
      length (turns (updateLastTurn u st)) = length (turns st) \<and>
      butlast (turns (updateLastTurn u st)) = butlast (turns st) \<and>
      role (last (turns (updateLastTurn u st))) = role (last (turns st)) \<and>
      timestamp (last (turns (updateLastTurn u st))) = timestamp (last (turns st)) \<and>
      text' (last (turns (updateLastTurn u st))) =
        (case upd_text u of None \<Rightarrow> text' (last (turns st)) | Some x \<Rightarrow> x) \<and>
      isFinal (last (turns (updateLastTurn u st))) =
        (case upd_isFinal u of None \<Rightarrow> isFinal (last (turns st)) | Some b \<Rightarrow> b))"
proof (cases "turns st" rule: rev_cases)
  case Nil
  then show ?thesis by (simp add: updateLastTurn_def)
next
  case (snoc ys y)
  then show ?thesis
    by (simp add: updateLastTurn_def spread_def Let_def butlast_list_update split: option.splits)
qed

theorem updateLastTurn_frame_witness:
  "updateLastTurn \<lparr>upd_text = Some (js ''hi there''), upd_isFinal = None\<rparr> \<lparr>turns = []\<rparr> = \<lparr>turns = []\<rparr> \<and>
   text' (last (turns (updateLastTurn \<lparr>upd_text = Some (js ''hi there''), upd_isFinal = None\<rparr>
      (logStore interleaved)))) = js ''hi there'' \<and>
   role (last (turns (updateLastTurn \<lparr>upd_text = Some (js ''hi there''), upd_isFinal = None\<rparr>
      (logStore interleaved)))) = Agent \<and>
   butlast (turns (updateLastTurn \<lparr>upd_text = Some (js ''hi there''), upd_isFinal = None\<rparr>
      (logStore interleaved))) = [\<lparr>role = User, text' = js ''hel'', isFinal = False, timestamp = 1\<rparr>]"
  using updateLastTurn_frame [of "\<lparr>turns = []\<rparr>" "\<lparr>upd_text = Some (js ''hi there''), upd_isFinal = None\<rparr>"]
    updateLastTurn_frame [of "logStore interleaved" "\<lparr>upd_text = Some (js ''hi there''), upd_isFinal = None\<rparr>"]
  by (simp add: interleaved_def)

section \<open>Transcript accumulation\<close>

lemma lastTurnOf_Nil: "turns (logStore w) = [] \<Longrightarrow> lastTurnOf w = None"
  by (simp add: lastTurnOf_def)

lemma lastTurnOf_snoc: "turns (logStore w) = ts @ [l] \<Longrightarrow> lastTurnOf w = Some l"
  by (simp add: lastTurnOf_def)

lemma turns_storeAddTurn:
  "turns (logStore (storeAddTurn r t f w)) =
     turns (logStore w) @ [\<lparr>role = r, text' = t, isFinal = f, timestamp = clock w (clockReads w)\<rparr>]"
  by (simp add: storeAddTurn_def addTurn_def)

lemma turns_storeUpdateLastTurn_snoc:
  "turns (logStore w) = ts @ [l] \<Longrightarrow>
   turns (logStore (storeUpdateLastTurn \<lparr>upd_text = Some x, upd_isFinal = Some f\<rparr> w)) =
     ts @ [l\<lparr>text' := x, isFinal := f\<rparr>]"
  by (simp add: storeUpdateLastTurn_def updateLastTurn_def spread_def)

lemma spec_accumulator_snoc_other:
  "role x \<noteq> r \<Longrightarrow> spec_accumulator r (ts @ [x]) = spec_accumulator r ts"
  by (simp add: spec_accumulator_def lastTurnFor_def)

lemma console_input_turns:
  "turns (logStore (console_onInputTranscription w c f)) =
     (case rev (turns (logStore w)) of
        [] \<Rightarrow> [\<lparr>role = User, text' = c, isFinal = f, timestamp = clock w (clockReads w)\<rparr>]
      | l # sr \<Rightarrow>
          if role l = User \<and> \<not> isFinal l
          then rev sr @ [l\<lparr>text' := text' l @ c, isFinal := f\<rparr>]
          else rev sr @ [l, \<lparr>role = User, text' = c, isFinal = f, timestamp = clock w (clockReads w)\<rparr>])"
proof (cases "turns (logStore w)" rule: rev_cases)
  case Nil
  then show ?thesis
    by (simp add: console_onInputTranscription_def lastTurnOf_Nil turns_storeAddTurn)
next
  case (snoc ts l)
  then show ?thesis
    by (simp add: console_onInputTranscription_def lastTurnOf_snoc turns_storeAddTurn
        turns_storeUpdateLastTurn_snoc)
qed

lemma console_output_turns:
  "turns (logStore (console_onOutputTranscription w c f)) =
     (case rev (turns (logStore w)) of
        [] \<Rightarrow> [\<lparr>role = Agent, text' = c, isFinal = f, timestamp = clock w (clockReads w)\<rparr>]
      | l # sr \<Rightarrow>
          if role l = Agent \<and> \<not> isFinal l
          then rev sr @ [l\<lparr>text' := text' l @ c, isFinal := f\<rparr>]
          else rev sr @ [l, \<lparr>role = Agent, text' = c, isFinal = f, timestamp = clock w (clockReads w)\<rparr>])"
proof (cases "turns (logStore w)" rule: rev_cases)
  case Nil
  then show ?thesis
    by (simp add: console_onOutputTranscription_def lastTurnOf_Nil turns_storeAddTurn)
next
  case (snoc ts l)
  then show ?thesis
    by (simp add: console_onOutputTranscription_def lastTurnOf_snoc turns_storeAddTurn
        turns_storeUpdateLastTurn_snoc)
qed

lemma console_input_frame:
  "r \<noteq> User \<Longrightarrow>
   spec_accumulator r (turns (logStore (console_onInputTranscription w c f))) =
   spec_accumulator r (turns (logStore w))"
proof (cases "turns (logStore w)" rule: rev_cases)
  case Nil
  assume "r \<noteq> User"
  with Nil show ?thesis
    by (simp add: console_input_turns spec_accumulator_def lastTurnFor_def)
next
  case (snoc ts l)
  assume "r \<noteq> User"
  with snoc show ?thesis
    by (auto simp add: console_input_turns spec_accumulator_def lastTurnFor_def)
qed

lemma console_output_frame:
  "r \<noteq> Agent \<Longrightarrow>
   spec_accumulator r (turns (logStore (console_onOutputTranscription w c f))) =
   spec_accumulator r (turns (logStore w))"
proof (cases "turns (logStore w)" rule: rev_cases)
  case Nil
  assume "r \<noteq> Agent"
  with Nil show ?thesis
    by (simp add: console_output_turns spec_accumulator_def lastTurnFor_def)
next
  case (snoc ts l)
  assume "r \<noteq> Agent"
  with snoc show ?thesis
    by (auto simp add: console_output_turns spec_accumulator_def lastTurnFor_def)
qed

text \<open>
  C1, as the specification states it, fails: a chunk continues a turn only when that turn
  is the last entry of the log. In \<open>interleaved\<close> the user's turn is open, an agent turn
  follows it, and the next user chunk starts a new turn instead of extending the open one.
\<close>

theorem accumulator_counterexample:
  "spec_accumulator User (turns (logStore interleaved)) = Some (js ''hel'') \<and>
   spec_accumulator User (turns (logStore (console_onInputTranscription interleaved (js ''lo'') False)))
     = Some (js ''lo'') \<and>
   spec_accumulator User (turns (logStore (console_onInputTranscription interleaved (js ''lo'') False)))
     \<noteq> Some (js ''hel'' @ js ''lo'')"
  by (simp add: console_input_turns interleaved_def spec_accumulator_def lastTurnFor_def js_def)

text \<open>
  C1, amended. A chunk of a role is appended to the last turn of the log when that turn
  has the chunk's role and is not final, and the turn takes the finality of the chunk, so
  that a final chunk closes it; in every other case the chunk starts a new turn of its
  role. The input handler leaves the agent's accumulator as it was, and the output
  handler the user's.
\<close>

theorem console_transcription_accumulates:
  "(turns (logStore w) = ts @ [l] \<and> role l = User \<and> \<not> isFinal l \<longrightarrow>
      turns (logStore (console_onInputTranscription w c f)) =
        ts @ [l\<lparr>text' := text' l @ c, isFinal := f\<rparr>]) \<and>
   (turns (logStore w) = ts @ [l] \<and> role l = Agent \<and> \<not> isFinal l \<longrightarrow>
      turns (logStore (console_onOutputTranscription w c f)) =
        ts @ [l\<lparr>text' := text' l @ c, isFinal := f\<rparr>]) \<and>
   (turns (logStore w) = [] \<or> role (last (turns (logStore w))) \<noteq> User
      \<or> isFinal (last (turns (logStore w))) \<longrightarrow>
      turns (logStore (console_onInputTranscription w c f)) =
        turns (logStore w) @
          [\<lparr>role = User, text' = c, isFinal = f, timestamp = clock w (clockReads w)\<rparr>]) \<and>
   (turns (logStore w) = [] \<or> role (last (turns (logStore w))) \<noteq> Agent
      \<or> isFinal (last (turns (logStore w))) \<longrightarrow>
      turns (logStore (console_onOutputTranscription w c f)) =
        turns (logStore w) @
          [\<lparr>role = Agent, text' = c, isFinal = f, timestamp = clock w (clockReads w)\<rparr>]) \<and>
   spec_accumulator Agent (turns (logStore (console_onInputTranscription w c f))) =
     spec_accumulator Agent (turns (logStore w)) \<and>
   spec_accumulator User (turns (logStore (console_onOutputTranscription w c f))) =
     spec_accumulator User (turns (logStore w))"
proof -
  have in_app: "turns (logStore w) = ts @ [l] \<and> role l = User \<and> \<not> isFinal l \<longrightarrow>
      turns (logStore (console_onInputTranscription w c f)) =
        ts @ [l\<lparr>text' := text' l @ c, isFinal := f\<rparr>]"
    by (simp add: console_input_turns)
  have out_app: "turns (logStore w) = ts @ [l] \<and> role l = Agent \<and> \<not> isFinal l \<longrightarrow>
      turns (logStore (console_onOutputTranscription w c f)) =
        ts @ [l\<lparr>text' := text' l @ c, isFinal := f\<rparr>]"
    by (simp add: console_output_turns)
  have in_new: "turns (logStore w) = [] \<or> role (last (turns (logStore w))) \<noteq> User
      \<or> isFinal (last (turns (logStore w))) \<longrightarrow>
      turns (logStore (console_onInputTranscription w c f)) =
        turns (logStore w) @
          [\<lparr>role = User, text' = c, isFinal = f, timestamp = clock w (clockReads w)\<rparr>]"
    by (cases "turns (logStore w)" rule: rev_cases) (auto simp add: console_input_turns)
  have out_new: "turns (logStore w) = [] \<or> role (last (turns (logStore w))) \<noteq> Agent
      \<or> isFinal (last (turns (logStore w))) \<longrightarrow>
      turns (logStore (console_onOutputTranscription w c f)) =
        turns (logStore w) @
          [\<lparr>role = Agent, text' = c, isFinal = f, timestamp = clock w (clockReads w)\<rparr>]"
    by (cases "turns (logStore w)" rule: rev_cases) (auto simp add: console_output_turns)
  show ?thesis
    using in_app out_app in_new out_new
      console_input_frame [of Agent w c f] console_output_frame [of User w c f]
    by simp
qed

theorem console_transcription_accumulates_witness:
  "turns (logStore (console_onOutputTranscription interleaved (js ''!'') True)) =
     [\<lparr>role = User, text' = js ''hel'', isFinal = False, timestamp = 1\<rparr>,
      \<lparr>role = Agent, text' = js ''hi!'', isFinal = True, timestamp = 2\<rparr>] \<and>
   turns (logStore (console_onInputTranscription interleaved (js ''lo'') False)) =
     turns (logStore interleaved) @
       [\<lparr>role = User, text' = js ''lo'', isFinal = False, timestamp = 3\<rparr>]"
  using console_transcription_accumulates
    [of interleaved "[\<lparr>role = User, text' = js ''hel'', isFinal = False, timestamp = 1\<rparr>]"
        "\<lparr>role = Agent, text' = js ''hi'', isFinal = False, timestamp = 2\<rparr>" "js ''!''" True]
    console_transcription_accumulates
    [of interleaved "[\<lparr>role = User, text' = js ''hel'', isFinal = False, timestamp = 1\<rparr>]"
        "\<lparr>role = Agent, text' = js ''hi'', isFinal = False, timestamp = 2\<rparr>" "js ''lo''" False]
  by (simp add: interleaved_def js_def)

section \<open>Non-final transcripts\<close>

text \<open>
  C2. On a transcript that is not final the command interpreter returns the state it was
  given: no store changes and no call is made, whatever the text is.
\<close>

theorem nonfinal_ignored: "onInputTranscription lc w t False = w"
  by (simp add: onInputTranscription_def)

theorem nonfinal_ignored_witness:
  "onInputTranscription toLowerCaseAscii interleaved (js ''stop stream'') False = interleaved"
  using nonfinal_ignored [of toLowerCaseAscii interleaved "js ''stop stream''"] by simp

section \<open>Normalisation of a command\<close>

lemma replacePunct_filter: "replacePunct s = filter (\<lambda>c. \<not> isPunct c) s"
  by (induction s) simp_all

lemma filter_stripTrailingPunct:
  "filter (\<lambda>c. \<not> isPunct c) s = filter (\<lambda>c. \<not> isPunct c) (stripTrailingPunct s)"
proof -
  have "rev s = takeWhile isPunct (rev s) @ dropWhile isPunct (rev s)" by simp
  then have "s = rev (dropWhile isPunct (rev s)) @ rev (takeWhile isPunct (rev s))"
    by (metis rev_append rev_rev_ident)
  then have "filter (\<lambda>c. \<not> isPunct c) s =
      filter (\<lambda>c. \<not> isPunct c) (stripTrailingPunct s) @
      filter (\<lambda>c. \<not> isPunct c) (rev (takeWhile isPunct (rev s)))"
    unfolding stripTrailingPunct_def by (metis filter_append)
  moreover have "filter (\<lambda>c. \<not> isPunct c) (rev (takeWhile isPunct (rev s))) = []"
    by (simp add: filter_empty_conv) (meson set_takeWhileD)
  ultimately show ?thesis by simp
qed

text \<open>
  C7, as the specification states it, fails: the punctuation is deleted wherever it
  stands, so the comma inside \<open>Stop, stream.\<close> goes too, and the text is the command
  \<open>stop stream\<close>.
\<close>

theorem normalization_counterexample:
  "command toLowerCaseAscii (js ''Stop, stream.'') = js ''stop stream'' \<and>
   spec_normalize toLowerCaseAscii (js ''Stop, stream.'') = js ''stop, stream'' \<and>
   command toLowerCaseAscii (js ''Stop, stream.'') \<noteq> spec_normalize toLowerCaseAscii (js ''Stop, stream.'')"
  by (simp add: command_def spec_normalize_def stripTrailingPunct_def toLowerCaseAscii_def
      trim_def isWhiteSpace_def isPunct_def js_def)

text \<open>
  C7, amended. The command is the raw text lower-cased and trimmed, with every full stop,
  comma and question mark deleted, at the end of the text and inside it alike; none of
  the three occurs in a command. Where the text has such punctuation at its end only, the
  command is the normalisation of the specification.
\<close>

theorem normalization_deletes_punctuation:
  "command lc t = filter (\<lambda>c. \<not> isPunct c) (trim (lc t)) \<and>
   (\<forall>c \<in> set (command lc t). c \<noteq> 46 \<and> c \<noteq> 44 \<and> c \<noteq> 63) \<and>
   ((\<forall>c \<in> set (spec_normalize lc t). \<not> isPunct c) \<longrightarrow> command lc t = spec_normalize lc t)"
proof -
  have a: "command lc t = filter (\<lambda>c. \<not> isPunct c) (trim (lc t))"
    by (simp add: command_def replacePunct_filter)
  have b: "\<forall>c \<in> set (command lc t). c \<noteq> 46 \<and> c \<noteq> 44 \<and> c \<noteq> 63"
    unfolding a by (simp add: isPunct_def)
  have c: "(\<forall>c \<in> set (spec_normalize lc t). \<not> isPunct c) \<longrightarrow> command lc t = spec_normalize lc t"
  proof
    assume h: "\<forall>c \<in> set (spec_normalize lc t). \<not> isPunct c"
    have "command lc t = filter (\<lambda>c. \<not> isPunct c) (spec_normalize lc t)"
      unfolding a spec_normalize_def by (rule filter_stripTrailingPunct)
    also have "\<dots> = spec_normalize lc t" using h by (simp add: filter_id_conv)
    finally show "command lc t = spec_normalize lc t" .
  qed
  from a b c show ?thesis by blast
qed

theorem normalization_deletes_punctuation_witness:
  "command toLowerCaseAscii (js '' What did I say?  '') = js ''what did i say'' \<and>
   spec_normalize toLowerCaseAscii (js '' What did I say?  '') = js ''what did i say''"
  using normalization_deletes_punctuation [of toLowerCaseAscii "js '' What did I say?  ''"]
  by (simp add: spec_normalize_def stripTrailingPunct_def toLowerCaseAscii_def
      trim_def isWhiteSpace_def isPunct_def js_def)

section \<open>The remember rules\<close>

lemma startsWith_hd: "startsWith s p \<Longrightarrow> p \<noteq> [] \<Longrightarrow> s \<noteq> [] \<and> hd s = hd p"
  by (cases s; cases p) (simp_all add: startsWith_def)

lemma startsWith_append: "startsWith s p \<Longrightarrow> s = p @ drop (length p) s"
  by (metis append_take_drop_id startsWith_def)

lemma rememberPrefixes_heads:
  "p \<in> set rememberPrefixes \<Longrightarrow> q \<in> set rememberPrefixes \<Longrightarrow> hd p = hd q \<Longrightarrow> p = q"
  by (auto simp add: rememberPrefixes_def js_def)

lemma rememberPrefixes_nonempty: "p \<in> set rememberPrefixes \<Longrightarrow> p \<noteq> []"
  by (auto simp add: rememberPrefixes_def js_def)

lemma rememberPrefixes_no_punct: "p \<in> set rememberPrefixes \<Longrightarrow> filter (\<lambda>c. \<not> isPunct c) p = p"
  by (auto simp add: rememberPrefixes_def js_def isPunct_def)

lemma rememberPrefixes_unique:
  assumes "p \<in> set rememberPrefixes" "q \<in> set rememberPrefixes" "startsWith s p" "startsWith s q"
  shows "p = q"
  using assms startsWith_hd [of s p] startsWith_hd [of s q] rememberPrefixes_nonempty
    rememberPrefixes_heads [of p q]
  by simp

lemma rememberLoop_None_iff:
  "rememberLoop lc originalText ps w = None \<longleftrightarrow>
     (\<forall>q \<in> set ps. \<not> (startsWith (lc originalText) q \<and> contentToRemember originalText q \<noteq> []))"
  by (induction ps) (auto simp add: Let_def)

lemma rememberLoop_Some:
  "rememberLoop lc originalText ps w = Some w' \<Longrightarrow>
     \<exists>q \<in> set ps. startsWith (lc originalText) q \<and> contentToRemember originalText q \<noteq> [] \<and>
       w' = addLog (js ''Added to Core Memory: '' @ quoted (contentToRemember originalText q))
              (appendToCoreMemory (contentToRemember originalText q) w)"
  by (induction ps) (auto simp add: Let_def split: if_splits)

lemma rememberLoop_match:
  assumes p: "p \<in> set rememberPrefixes" and m: "startsWith (lc originalText) p"
  shows "rememberLoop lc originalText rememberPrefixes w =
     (if contentToRemember originalText p \<noteq> []
      then Some (addLog (js ''Added to Core Memory: '' @ quoted (contentToRemember originalText p))
                   (appendToCoreMemory (contentToRemember originalText p) w))
      else None)"
proof (cases "contentToRemember originalText p = []")
  case True
  have "\<forall>q \<in> set rememberPrefixes.
      \<not> (startsWith (lc originalText) q \<and> contentToRemember originalText q \<noteq> [])"
    using True rememberPrefixes_unique [OF p _ m] by blast
  then show ?thesis using True by (simp add: rememberLoop_None_iff)
next
  case False
  then have "rememberLoop lc originalText rememberPrefixes w \<noteq> None"
    using p m by (auto simp add: rememberLoop_None_iff)
  then obtain w' where w': "rememberLoop lc originalText rememberPrefixes w = Some w'" by blast
  from rememberLoop_Some [OF w'] obtain q where q: "q \<in> set rememberPrefixes"
    "startsWith (lc originalText) q"
    "w' = addLog (js ''Added to Core Memory: '' @ quoted (contentToRemember originalText q))
              (appendToCoreMemory (contentToRemember originalText q) w)" by blast
  have "q = p" using rememberPrefixes_unique [OF q(1) p q(2) m] .
  with q(3) w' False show ?thesis by simp
qed

lemma exactCommands_not_prefixed:
  "c \<in> set exactCommands \<Longrightarrow> p \<in> set rememberPrefixes \<Longrightarrow> \<not> startsWith c p"
  by (auto simp add: exactCommands_def openSettingsCommands_def closeSettingsCommands_def
      startCommands_def stopCommands_def recallCommands_def rememberPrefixes_def startsWith_def js_def)

lemma command_startsWith:
  assumes "trim (lc t) = lc (trim t)" "startsWith (lc (trim t)) p" "p \<in> set rememberPrefixes"
  shows "startsWith (command lc t) p"
proof -
  have "lc (trim t) = p @ drop (length p) (lc (trim t))"
    using assms(2) by (rule startsWith_append)
  then have "command lc t = filter (\<lambda>c. \<not> isPunct c) (p @ drop (length p) (lc (trim t)))"
    using assms(1) by (simp add: command_def replacePunct_filter)
  then have "command lc t = p @ filter (\<lambda>c. \<not> isPunct c) (drop (length p) (lc (trim t)))"
    using rememberPrefixes_no_punct [OF assms(3)] by simp
  then show ?thesis by (simp add: startsWith_def)
qed

lemma prefixed_not_exact:
  assumes "trim (lc t) = lc (trim t)" "startsWith (lc (trim t)) p" "p \<in> set rememberPrefixes"
  shows "command lc t \<notin> set exactCommands"
  using command_startsWith [OF assms] exactCommands_not_prefixed assms(3) by blast

lemma exact_not_remembered:
  assumes "trim (lc t) = lc (trim t)" "command lc t \<in> set exactCommands"
  shows "rememberLoop lc (trim t) rememberPrefixes w = None"
  using assms prefixed_not_exact [of lc t] by (auto simp add: rememberLoop_None_iff)

lemma handler_unmatched:
  assumes "rememberLoop lc (trim t) rememberPrefixes w = None" "command lc t \<notin> set exactCommands"
  shows "onInputTranscription lc w t True = w"
  using assms by (simp add: onInputTranscription_def exactCommands_def Let_def)

lemma handler_remembered:
  assumes "rememberLoop lc (trim t) rememberPrefixes w = Some w'"
  shows "onInputTranscription lc w t True = w'"
  using assms by (simp add: onInputTranscription_def Let_def)

lemma handler_dispatch:
  assumes "rememberLoop lc (trim t) rememberPrefixes w = None"
  shows "onInputTranscription lc w t True = dispatch exactRules (command lc t) w"
  using assms by (simp add: onInputTranscription_def exactRules_def Let_def)

lemma coreMemory_recall: "coreMemory (recall cmd w) = coreMemory w"
  by (simp add: recall_def Let_def addLog_def storeAddTurn_def split: option.splits)

lemma coreMemory_dispatch: "coreMemory (dispatch exactRules cmd w) = coreMemory w"
  by (simp add: exactRules_def coreMemory_recall addLog_def storeAddTurn_def toggleSidebar_def
      connect_def disconnect_def)

text \<open>
  C3, as the specification states it, fails: the remainder is trimmed before the colon
  is looked for, so a colon that follows white space is stripped too. After
  \<open>remember this : buy milk\<close> the memory is \<open>- buy milk\<close>, where the payload of the
  specification gives \<open>- : buy milk\<close>.
\<close>

theorem remember_payload_counterexample:
  "startsWith (toLowerCaseAscii (trim (js ''remember this : buy milk''))) (js ''remember this'') \<and>
   coreMemory (onInputTranscription toLowerCaseAscii freshWorld (js ''remember this : buy milk'') True)
     = js ''- buy milk'' \<and>
   js ''- '' @ spec_payload (substring (trim (js ''remember this : buy milk'')) (length (js ''remember this'')))
     = js ''- : buy milk'' \<and>
   coreMemory (onInputTranscription toLowerCaseAscii freshWorld (js ''remember this : buy milk'') True)
     \<noteq> js ''- '' @ spec_payload (substring (trim (js ''remember this : buy milk''))
                       (length (js ''remember this'')))"
  by (simp add: onInputTranscription_def rememberPrefixes_def contentToRemember_def spec_payload_def
      startsWith_def substring_def trim_def isWhiteSpace_def toLowerCaseAscii_def freshWorld_def
      addLog_def storeAddTurn_def appendToCoreMemory_def js_def Let_def)

text \<open>
  C3, amended. Let the lower-cased trimmed text of a finalized transcript start with a
  remember prefix. The payload is the remainder of the trimmed text after the prefix,
  trimmed, and then, where it starts with a colon, without that colon and trimmed again.
  A payload \<open>c\<close> that is not empty makes the core memory \<open>- c\<close> when it was empty, and the
  old memory followed by a newline and \<open>- c\<close> otherwise; the calls are that append and one
  log entry. An empty payload leaves the core memory as it is, and the whole state where
  lower-casing and trimming commute on the text.
\<close>

theorem remember_appends_payload:
  assumes "p \<in> set rememberPrefixes" and "startsWith (lc (trim t)) p"
  shows "contentToRemember (trim t) p =
           (let r = trim (drop (length p) (trim t))
            in if take 1 r = [58] then trim (drop 1 r) else r) \<and>
         (contentToRemember (trim t) p \<noteq> [] \<longrightarrow>
            coreMemory (onInputTranscription lc w t True) =
              (if coreMemory w = [] then js ''- '' @ contentToRemember (trim t) p
               else coreMemory w @ [10] @ js ''- '' @ contentToRemember (trim t) p) \<and>
            calls (onInputTranscription lc w t True) =
              calls w @ [AppendToCoreMemory (contentToRemember (trim t) p),
                         AddTurn System (js ''Added to Core Memory: '' @ [34]
                            @ contentToRemember (trim t) p @ [34]) True]) \<and>
         (contentToRemember (trim t) p = [] \<longrightarrow>
            coreMemory (onInputTranscription lc w t True) = coreMemory w) \<and>
         (contentToRemember (trim t) p = [] \<and> trim (lc t) = lc (trim t) \<longrightarrow>
            onInputTranscription lc w t True = w)"
proof -
  let ?c = "contentToRemember (trim t) p"
  have shape: "?c = (let r = trim (drop (length p) (trim t))
                     in if take 1 r = [58] then trim (drop 1 r) else r)"
    by (simp add: contentToRemember_def startsWith_def substring_def js_def Let_def)
  have loop: "rememberLoop lc (trim t) rememberPrefixes w =
     (if ?c \<noteq> [] then Some (addLog (js ''Added to Core Memory: '' @ quoted ?c) (appendToCoreMemory ?c w))
      else None)"
    using assms by (rule rememberLoop_match)
  have full: "?c \<noteq> [] \<longrightarrow>
      coreMemory (onInputTranscription lc w t True) =
        (if coreMemory w = [] then js ''- '' @ ?c else coreMemory w @ [10] @ js ''- '' @ ?c) \<and>
      calls (onInputTranscription lc w t True) =
        calls w @ [AppendToCoreMemory ?c,
                   AddTurn System (js ''Added to Core Memory: '' @ [34] @ ?c @ [34]) True]"
  proof
    assume ne: "?c \<noteq> []"
    then have "onInputTranscription lc w t True =
        addLog (js ''Added to Core Memory: '' @ quoted ?c) (appendToCoreMemory ?c w)"
      using loop by (simp add: handler_remembered)
    then show "coreMemory (onInputTranscription lc w t True) =
        (if coreMemory w = [] then js ''- '' @ ?c else coreMemory w @ [10] @ js ''- '' @ ?c) \<and>
      calls (onInputTranscription lc w t True) =
        calls w @ [AppendToCoreMemory ?c,
                   AddTurn System (js ''Added to Core Memory: '' @ [34] @ ?c @ [34]) True]"
      by (simp add: addLog_def storeAddTurn_def appendToCoreMemory_def quoted_def)
  qed
  have mem: "?c = [] \<longrightarrow> coreMemory (onInputTranscription lc w t True) = coreMemory w"
    using loop by (simp add: handler_dispatch coreMemory_dispatch)
  have none: "?c = [] \<and> trim (lc t) = lc (trim t) \<longrightarrow> onInputTranscription lc w t True = w"
  proof
    assume h: "?c = [] \<and> trim (lc t) = lc (trim t)"
    then have "command lc t \<notin> set exactCommands"
      using prefixed_not_exact [of lc t p] assms by simp
    moreover have "rememberLoop lc (trim t) rememberPrefixes w = None"
      using loop h by simp
    ultimately show "onInputTranscription lc w t True = w"
      by (simp add: handler_unmatched)
  qed
  from shape full mem none show ?thesis by blast
qed

theorem remember_appends_payload_witness:
  "coreMemory (onInputTranscription toLowerCaseAscii freshWorld (js ''Remember this: buy milk'') True)
     = js ''- buy milk'' \<and>
   coreMemory (onInputTranscription toLowerCaseAscii (freshWorld\<lparr>coreMemory := js ''- call Bo''\<rparr>)
      (js ''Remember this: buy milk'') True)
     = js ''- call Bo'' @ [10] @ js ''- buy milk'' \<and>
   onInputTranscription toLowerCaseAscii freshWorld (js ''remember this:'') True = freshWorld"
proof -
  have p: "js ''remember this'' \<in> set rememberPrefixes"
    by (simp add: rememberPrefixes_def)
  have m1: "startsWith (toLowerCaseAscii (trim (js ''Remember this: buy milk''))) (js ''remember this'')"
    by (simp add: startsWith_def toLowerCaseAscii_def trim_def isWhiteSpace_def js_def)
  have c1: "contentToRemember (trim (js ''Remember this: buy milk'')) (js ''remember this'') = js ''buy milk''"
    by (simp add: contentToRemember_def startsWith_def substring_def trim_def isWhiteSpace_def js_def)
  have m2: "startsWith (toLowerCaseAscii (trim (js ''remember this:''))) (js ''remember this'')"
    by (simp add: startsWith_def toLowerCaseAscii_def trim_def isWhiteSpace_def js_def)
  have c2: "contentToRemember (trim (js ''remember this:'')) (js ''remember this'') = []"
    by (simp add: contentToRemember_def startsWith_def substring_def trim_def isWhiteSpace_def js_def)
  have k2: "trim (toLowerCaseAscii (js ''remember this:'')) = toLowerCaseAscii (trim (js ''remember this:''))"
    by (simp add: toLowerCaseAscii_def trim_def isWhiteSpace_def js_def)
  show ?thesis
    using p m1 m2 c1 c2 k2
      remember_appends_payload [where lc = toLowerCaseAscii and p = "js ''remember this''"
        and t = "js ''Remember this: buy milk''" and w = freshWorld]
      remember_appends_payload [where lc = toLowerCaseAscii and p = "js ''remember this''"
        and t = "js ''Remember this: buy milk''"
        and w = "freshWorld\<lparr>coreMemory := js ''- call Bo''\<rparr>"]
      remember_appends_payload [where lc = toLowerCaseAscii and p = "js ''remember this''"
        and t = "js ''remember this:''" and w = freshWorld]
    by (simp add: freshWorld_def js_def)
qed

section \<open>The recall command\<close>

lemma recall_only:
  "c \<in> set recallCommands \<Longrightarrow>
     c \<notin> set openSettingsCommands \<and> c \<notin> set closeSettingsCommands \<and>
     c \<notin> set startCommands \<and> c \<notin> set stopCommands"
  by (auto simp add: recallCommands_def openSettingsCommands_def closeSettingsCommands_def
      startCommands_def stopCommands_def js_def)

lemma handler_recall:
  assumes "trim (lc t) = lc (trim t)" "command lc t \<in> set recallCommands"
  shows "onInputTranscription lc w t True = recall (command lc t) w"
proof -
  have "command lc t \<in> set exactCommands" using assms(2) by (simp add: exactCommands_def)
  then have "rememberLoop lc (trim t) rememberPrefixes w = None"
    using assms(1) by (rule exact_not_remembered [rotated])
  then show ?thesis
    using assms(2) recall_only [OF assms(2)] by (simp add: onInputTranscription_def Let_def)
qed

lemma find_skip: "\<forall>x \<in> set xs. \<not> P x \<Longrightarrow> find P (xs @ ys) = find P ys"
  by (induction xs) simp_all

lemma turns_recall:
  "turns (logStore (recall cmd w)) =
     turns (logStore w) @
       [\<lparr>role = System, text' = recognized cmd, isFinal = True, timestamp = clock w (clockReads w)\<rparr>,
        \<lparr>role = System,
          text' = (case find (\<lambda>turn. role turn = User \<and> isFinal turn) (rev (turns (logStore w))) of
                     Some turn \<Rightarrow> js ''You said: '' @ quoted (text' turn)
                   | None \<Rightarrow> noRecord),
          isFinal = True, timestamp = clock w (Suc (clockReads w))\<rparr>]"
  by (simp add: recall_def Let_def addLog_def storeAddTurn_def addTurn_def split: option.splits)

text \<open>
  C4. Let the command of a finalized transcript be a recall command (and lower-casing
  and trimming commute on the text). The handler adds two system turns to the log: the
  entry that names the command, and the report. When no turn of the log is a final user
  turn, the report is the fixed text that there is no record; when \<open>u\<close> is a final user turn
  and no turn after it is one, the report is \<open>You said:\<close> followed by the text of \<open>u\<close>, as it
  is, between double quotes.
\<close>

theorem recall_reports_last_user_turn:
  assumes "trim (lc t) = lc (trim t)" and "command lc t \<in> set recallCommands"
  shows "((\<forall>x \<in> set (turns (logStore w)). \<not> (role x = User \<and> isFinal x)) \<longrightarrow>
            turns (logStore (onInputTranscription lc w t True)) =
              turns (logStore w) @
                [\<lparr>role = System, text' = recognized (command lc t), isFinal = True,
                  timestamp = clock w (clockReads w)\<rparr>,
                 \<lparr>role = System,
                  text' = js ''I don'' @ [39] @ js ''t have a record of what you last said.'',
                  isFinal = True, timestamp = clock w (Suc (clockReads w))\<rparr>]) \<and>
         (turns (logStore w) = pre @ [u] @ post \<and> role u = User \<and> isFinal u \<and>
            (\<forall>x \<in> set post. \<not> (role x = User \<and> isFinal x)) \<longrightarrow>
            turns (logStore (onInputTranscription lc w t True)) =
              turns (logStore w) @
                [\<lparr>role = System, text' = recognized (command lc t), isFinal = True,
                  timestamp = clock w (clockReads w)\<rparr>,
                 \<lparr>role = System, text' = js ''You said: '' @ [34] @ text' u @ [34],
                  isFinal = True, timestamp = clock w (Suc (clockReads w))\<rparr>])"
proof -
  let ?P = "\<lambda>turn. role turn = User \<and> isFinal turn"
  have h: "onInputTranscription lc w t True = recall (command lc t) w"
    using assms by (rule handler_recall)
  have none: "(\<forall>x \<in> set (turns (logStore w)). \<not> ?P x) \<longrightarrow>
      find ?P (rev (turns (logStore w))) = None"
    by (simp add: find_None_iff)
  have some: "turns (logStore w) = pre @ [u] @ post \<and> role u = User \<and> isFinal u \<and>
      (\<forall>x \<in> set post. \<not> ?P x) \<longrightarrow> find ?P (rev (turns (logStore w))) = Some u"
  proof
    assume a: "turns (logStore w) = pre @ [u] @ post \<and> role u = User \<and> isFinal u \<and>
      (\<forall>x \<in> set post. \<not> ?P x)"
    then have "find ?P (rev (turns (logStore w))) = find ?P (rev post @ (u # rev pre))" by simp
    also have "\<dots> = find ?P (u # rev pre)" using a by (intro find_skip) simp
    also have "\<dots> = Some u" using a by simp
    finally show "find ?P (rev (turns (logStore w))) = Some u" .
  qed
  show ?thesis
    using none some by (auto simp add: h turns_recall noRecord_def quoted_def)
qed

theorem recall_reports_last_user_turn_witness:
  "map text' (turns (logStore (onInputTranscription toLowerCaseAscii talkedWorld (js ''What did I say?'') True))) =
     [js ''Buy milk.'', js ''Noted.'',
      js ''Voice command recognized: '' @ [34] @ js ''what did i say'' @ [34],
      js ''You said: '' @ [34] @ js ''Buy milk.'' @ [34]] \<and>
   map text' (turns (logStore (onInputTranscription toLowerCaseAscii freshWorld (js ''What did I say?'') True))) =
     [js ''Voice command recognized: '' @ [34] @ js ''what did i say'' @ [34],
      js ''I don'' @ [39] @ js ''t have a record of what you last said.'']"
proof -
  have k: "trim (toLowerCaseAscii (js ''What did I say?'')) = toLowerCaseAscii (trim (js ''What did I say?''))"
    by (simp add: toLowerCaseAscii_def trim_def isWhiteSpace_def js_def)
  have c: "command toLowerCaseAscii (js ''What did I say?'') = js ''what did i say''"
    by (simp add: command_def toLowerCaseAscii_def trim_def isWhiteSpace_def isPunct_def js_def)
  have r: "js ''what did i say'' \<in> set recallCommands"
    by (simp add: recallCommands_def)
  show ?thesis
    using k c r
      recall_reports_last_user_turn [where lc = toLowerCaseAscii and t = "js ''What did I say?''"
        and w = talkedWorld and pre = "[]"
        and u = "\<lparr>role = User, text' = js ''Buy milk.'', isFinal = True, timestamp = 1\<rparr>"
        and post = "[\<lparr>role = Agent, text' = js ''Noted.'', isFinal = True, timestamp = 2\<rparr>]"]
      recall_reports_last_user_turn [where lc = toLowerCaseAscii and t = "js ''What did I say?''"
        and w = freshWorld and pre = "[]"
        and u = "\<lparr>role = User, text' = js ''Buy milk.'', isFinal = True, timestamp = 1\<rparr>"
        and post = "[]"]
    by (simp add: talkedWorld_def freshWorld_def recognized_def quoted_def)
qed

section \<open>The exact-match rules\<close>

lemma calls_recall:
  "\<exists>l1 l2. calls (recall cmd w) = calls w @ [AddTurn System l1 True, AddTurn System l2 True]"
  by (simp add: recall_def Let_def addLog_def storeAddTurn_def split: option.splits)

lemma calls_dispatch:
  "\<exists>d. calls (dispatch exactRules cmd w) = calls w @ d \<and>
       (d = [] \<or> (\<exists>a l. isAction a \<and> d = [a, AddTurn System l True])
          \<or> (\<exists>l1 l2. d = [AddTurn System l1 True, AddTurn System l2 True]))"
proof -
  have tog: "\<exists>a l. isAction a \<and>
      calls (addLog (recognized cmd) (toggleSidebar w)) = calls w @ [a, AddTurn System l True]"
    by (rule exI [of _ ToggleSidebar]) (simp add: addLog_def storeAddTurn_def toggleSidebar_def)
  have con: "\<exists>a l. isAction a \<and>
      calls (addLog (recognized cmd) (connect w)) = calls w @ [a, AddTurn System l True]"
    by (rule exI [of _ Connect]) (simp add: addLog_def storeAddTurn_def connect_def)
  have dis: "\<exists>a l. isAction a \<and>
      calls (addLog (recognized cmd) (disconnect w)) = calls w @ [a, AddTurn System l True]"
    by (rule exI [of _ Disconnect]) (simp add: addLog_def storeAddTurn_def disconnect_def)
  show ?thesis
    using tog con dis calls_recall [of cmd w]
    by (simp add: exactRules_def) blast
qed

lemma calls_handler:
  "\<exists>d. calls (onInputTranscription lc w t True) = calls w @ d \<and>
       (d = [] \<or> (\<exists>a l. isAction a \<and> d = [a, AddTurn System l True])
          \<or> (\<exists>l1 l2. d = [AddTurn System l1 True, AddTurn System l2 True]))"
proof (cases "rememberLoop lc (trim t) rememberPrefixes w")
  case None
  then show ?thesis using calls_dispatch [of "command lc t" w] by (simp add: handler_dispatch)
next
  case (Some w')
  from rememberLoop_Some [OF Some] obtain c where
    "w' = addLog (js ''Added to Core Memory: '' @ quoted c) (appendToCoreMemory c w)" by blast
  then have "calls w' = calls w @ [AppendToCoreMemory c,
      AddTurn System (js ''Added to Core Memory: '' @ quoted c) True]"
    by (simp add: addLog_def storeAddTurn_def appendToCoreMemory_def)
  moreover have "isAction (AppendToCoreMemory c)" by simp
  ultimately show ?thesis
    unfolding handler_remembered [OF Some] by blast
qed

lemma close_only: "c \<in> set closeSettingsCommands \<Longrightarrow> c \<notin> set openSettingsCommands"
  by (auto simp add: openSettingsCommands_def closeSettingsCommands_def js_def)

lemma start_disjoint:
  "set startCommands \<inter> (set openSettingsCommands \<union> set closeSettingsCommands) = {}"
  by (simp add: openSettingsCommands_def closeSettingsCommands_def startCommands_def js_def)

lemma stop_disjoint:
  "set stopCommands \<inter>
     (set openSettingsCommands \<union> set closeSettingsCommands \<union> set startCommands) = {}"
  by (simp add: openSettingsCommands_def closeSettingsCommands_def startCommands_def
      stopCommands_def js_def)

lemma start_only:
  "c \<in> set startCommands \<Longrightarrow> c \<notin> set openSettingsCommands \<and> c \<notin> set closeSettingsCommands"
  using start_disjoint by blast

lemma stop_only:
  "c \<in> set stopCommands \<Longrightarrow>
     c \<notin> set openSettingsCommands \<and> c \<notin> set closeSettingsCommands \<and> c \<notin> set startCommands"
  using stop_disjoint by blast


lemma dispatch_open:
  "c \<in> set openSettingsCommands \<Longrightarrow>
     dispatch exactRules c w = (if \<not> isSidebarOpen w then addLog (recognized c) (toggleSidebar w) else w)"
  by (simp add: exactRules_def)

lemma dispatch_close:
  "c \<in> set closeSettingsCommands \<Longrightarrow>
     dispatch exactRules c w = (if isSidebarOpen w then addLog (recognized c) (toggleSidebar w) else w)"
  using close_only [of c] by (simp add: exactRules_def)

lemma dispatch_start:
  "c \<in> set startCommands \<Longrightarrow>
     dispatch exactRules c w = (if \<not> connected w then addLog (recognized c) (connect w) else w)"
  using start_only [of c] by (simp add: exactRules_def)

lemma dispatch_stop:
  "c \<in> set stopCommands \<Longrightarrow>
     dispatch exactRules c w = (if connected w then addLog (recognized c) (disconnect w) else w)"
  using stop_only [of c] by (simp add: exactRules_def)

lemma dispatch_recall:
  "c \<in> set recallCommands \<Longrightarrow> dispatch exactRules c w = recall c w"
  using recall_only [of c] by (simp add: exactRules_def)

lemma calls_recall_first:
  "\<exists>l. calls (recall cmd w) = calls w @ [AddTurn System (recognized cmd) True, AddTurn System l True]"
  by (simp add: recall_def Let_def addLog_def storeAddTurn_def split: option.splits)

lemma recall_changes: "recall cmd w \<noteq> w"
proof
  assume "recall cmd w = w"
  then have "calls (recall cmd w) = calls w" by simp
  then show False using calls_recall_first [of cmd w] by auto
qed

lemma repeat_that:
  "trim (toLowerCaseAscii (js ''Repeat that.'')) = toLowerCaseAscii (trim (js ''Repeat that.'')) \<and>
   command toLowerCaseAscii (js ''Repeat that.'') = js ''repeat that'' \<and>
   js ''repeat that'' \<in> set recallCommands"
  by (simp add: command_def toLowerCaseAscii_def trim_def isWhiteSpace_def isPunct_def
      recallCommands_def js_def)

lemma repeat_that_handler:
  "onInputTranscription toLowerCaseAscii w (js ''Repeat that.'') True = recall (js ''repeat that'') w"
  using repeat_that handler_recall [of toLowerCaseAscii "js ''Repeat that.''" w] by simp

text \<open>
  C5, as the specification states it, fails for the recall rule: nothing in the state
  holds it back. In the fresh state, where the log is empty and nothing can be recalled,
  the transcript \<open>Repeat that.\<close> makes the handler add its two log entries; handled again
  in the state it has just produced, it adds two more; and it fires as well in a state
  with an open session, a closed sidebar and a log that has turns.
\<close>

theorem recall_unguarded_counterexample:
  "command toLowerCaseAscii (js ''Repeat that.'') \<in> set recallCommands \<and>
   calls freshWorld = [] \<and>
   calls (onInputTranscription toLowerCaseAscii freshWorld (js ''Repeat that.'') True) =
     [AddTurn System (recognized (js ''repeat that'')) True, AddTurn System noRecord True] \<and>
   calls (onInputTranscription toLowerCaseAscii
            (onInputTranscription toLowerCaseAscii freshWorld (js ''Repeat that.'') True)
            (js ''Repeat that.'') True) =
     [AddTurn System (recognized (js ''repeat that'')) True, AddTurn System noRecord True,
      AddTurn System (recognized (js ''repeat that'')) True, AddTurn System noRecord True] \<and>
   calls talkedWorld = [] \<and>
   calls (onInputTranscription toLowerCaseAscii talkedWorld (js ''Repeat that.'') True) =
     [AddTurn System (recognized (js ''repeat that'')) True,
      AddTurn System (js ''You said: '' @ quoted (js ''Buy milk.'')) True]"
proof -
  have c: "command toLowerCaseAscii (js ''Repeat that.'') \<in> set recallCommands"
    using repeat_that by simp
  have f1: "calls (recall (js ''repeat that'') freshWorld) =
      [AddTurn System (recognized (js ''repeat that'')) True, AddTurn System noRecord True]"
    by (simp add: recall_def Let_def addLog_def storeAddTurn_def addTurn_def freshWorld_def)
  have f2: "calls (recall (js ''repeat that'') (recall (js ''repeat that'') freshWorld)) =
      [AddTurn System (recognized (js ''repeat that'')) True, AddTurn System noRecord True,
       AddTurn System (recognized (js ''repeat that'')) True, AddTurn System noRecord True]"
    by (simp add: recall_def Let_def addLog_def storeAddTurn_def addTurn_def freshWorld_def)
  have f3: "calls (recall (js ''repeat that'') talkedWorld) =
      [AddTurn System (recognized (js ''repeat that'')) True,
       AddTurn System (js ''You said: '' @ quoted (js ''Buy milk.'')) True]"
    by (simp add: recall_def Let_def addLog_def storeAddTurn_def addTurn_def talkedWorld_def)
  have e: "calls freshWorld = [] \<and> calls talkedWorld = []"
    by (simp add: freshWorld_def talkedWorld_def)
  show ?thesis
    using c e by (simp add: repeat_that_handler f1 f2 f3)
qed


text \<open>
  C5, amended. Where the lower-cased trimmed text of a finalized transcript starts with no
  remember prefix, the handler is the dispatch over the table of the exact-match rules in
  the order open settings, close settings, start session, stop session, recall: the first
  row that holds the command decides. The first four rows are guarded on the state: open
  settings does nothing when the sidebar is open and toggles it otherwise, close settings
  does nothing when it is closed, start session does nothing in a connected session and
  calls \<open>connect\<close> otherwise, stop session does nothing in a session that is not connected
  and calls \<open>disconnect\<close> otherwise; each action comes with one log entry. Recall has no
  guard: in every state it changes the state and adds its two log entries. A command in
  no row leaves the state as it is. For every finalized transcript the calls of the
  handler are none, or one action followed by one log entry, or the two log entries of
  recall: at most one action fires.
\<close>

theorem exact_rules_dispatch:
  "((\<forall>p \<in> set rememberPrefixes. \<not> startsWith (lc (trim t)) p) \<longrightarrow>
      onInputTranscription lc w t True = dispatch exactRules (command lc t) w \<and>
      (command lc t \<in> set openSettingsCommands \<longrightarrow>
         (isSidebarOpen w \<longrightarrow> onInputTranscription lc w t True = w) \<and>
         (\<not> isSidebarOpen w \<longrightarrow>
            calls (onInputTranscription lc w t True) =
              calls w @ [ToggleSidebar, AddTurn System (recognized (command lc t)) True] \<and>
            isSidebarOpen (onInputTranscription lc w t True))) \<and>
      (command lc t \<in> set closeSettingsCommands \<longrightarrow>
         (\<not> isSidebarOpen w \<longrightarrow> onInputTranscription lc w t True = w) \<and>
         (isSidebarOpen w \<longrightarrow>
            calls (onInputTranscription lc w t True) =
              calls w @ [ToggleSidebar, AddTurn System (recognized (command lc t)) True] \<and>
            \<not> isSidebarOpen (onInputTranscription lc w t True))) \<and>
      (command lc t \<in> set startCommands \<longrightarrow>
         (connected w \<longrightarrow> onInputTranscription lc w t True = w) \<and>
         (\<not> connected w \<longrightarrow>
            calls (onInputTranscription lc w t True) =
              calls w @ [Connect, AddTurn System (recognized (command lc t)) True])) \<and>
      (command lc t \<in> set stopCommands \<longrightarrow>
         (\<not> connected w \<longrightarrow> onInputTranscription lc w t True = w) \<and>
         (connected w \<longrightarrow>
            calls (onInputTranscription lc w t True) =
              calls w @ [Disconnect, AddTurn System (recognized (command lc t)) True] \<and>
            \<not> connected (onInputTranscription lc w t True))) \<and>
      (command lc t \<in> set recallCommands \<longrightarrow>
         onInputTranscription lc w t True \<noteq> w \<and>
         (\<exists>l. calls (onInputTranscription lc w t True) =
            calls w @ [AddTurn System (recognized (command lc t)) True, AddTurn System l True])) \<and>
      (command lc t \<notin> set exactCommands \<longrightarrow> onInputTranscription lc w t True = w)) \<and>
   (\<exists>d. calls (onInputTranscription lc w t True) = calls w @ d \<and>
        length (filter isAction d) \<le> 1 \<and>
        (d = [] \<or> (\<exists>a l. isAction a \<and> d = [a, AddTurn System l True])
           \<or> (\<exists>l1 l2. d = [AddTurn System l1 True, AddTurn System l2 True])))"
proof -
  let ?H = "\<forall>p \<in> set rememberPrefixes. \<not> startsWith (lc (trim t)) p"
  let ?w' = "onInputTranscription lc w t True"
  let ?c = "command lc t"
  have loop: "?H \<longrightarrow> rememberLoop lc (trim t) rememberPrefixes w = None"
    by (simp add: rememberLoop_None_iff)
  have a: "?H \<longrightarrow> ?w' = dispatch exactRules ?c w"
    using loop by (simp add: handler_dispatch)
  have op: "?H \<longrightarrow> ?c \<in> set openSettingsCommands \<longrightarrow>
      (isSidebarOpen w \<longrightarrow> ?w' = w) \<and>
      (\<not> isSidebarOpen w \<longrightarrow>
         calls ?w' = calls w @ [ToggleSidebar, AddTurn System (recognized ?c) True] \<and>
         isSidebarOpen ?w')"
    using a by (simp add: dispatch_open addLog_def storeAddTurn_def toggleSidebar_def)
  have cl: "?H \<longrightarrow> ?c \<in> set closeSettingsCommands \<longrightarrow>
      (\<not> isSidebarOpen w \<longrightarrow> ?w' = w) \<and>
      (isSidebarOpen w \<longrightarrow>
         calls ?w' = calls w @ [ToggleSidebar, AddTurn System (recognized ?c) True] \<and>
         \<not> isSidebarOpen ?w')"
    using a by (simp add: dispatch_close addLog_def storeAddTurn_def toggleSidebar_def)
  have st: "?H \<longrightarrow> ?c \<in> set startCommands \<longrightarrow>
      (connected w \<longrightarrow> ?w' = w) \<and>
      (\<not> connected w \<longrightarrow>
         calls ?w' = calls w @ [Connect, AddTurn System (recognized ?c) True])"
    using a by (simp add: dispatch_start addLog_def storeAddTurn_def connect_def)
  have sp: "?H \<longrightarrow> ?c \<in> set stopCommands \<longrightarrow>
      (\<not> connected w \<longrightarrow> ?w' = w) \<and>
      (connected w \<longrightarrow>
         calls ?w' = calls w @ [Disconnect, AddTurn System (recognized ?c) True] \<and>
         \<not> connected ?w')"
    using a by (simp add: dispatch_stop addLog_def storeAddTurn_def disconnect_def)
  have rc: "?H \<longrightarrow> ?c \<in> set recallCommands \<longrightarrow>
      ?w' \<noteq> w \<and>
      (\<exists>l. calls ?w' = calls w @ [AddTurn System (recognized ?c) True, AddTurn System l True])"
    using a calls_recall_first [of ?c w] recall_changes [of ?c w] by (simp add: dispatch_recall)
  have un: "?H \<longrightarrow> ?c \<notin> set exactCommands \<longrightarrow> ?w' = w"
    using loop by (simp add: handler_unmatched)
  obtain d where d: "calls ?w' = calls w @ d"
    "d = [] \<or> (\<exists>a l. isAction a \<and> d = [a, AddTurn System l True])
       \<or> (\<exists>l1 l2. d = [AddTurn System l1 True, AddTurn System l2 True])"
    using calls_handler [of lc w t] by blast
  have "length (filter isAction d) \<le> 1" using d(2) by auto
  with d have c: "\<exists>d. calls ?w' = calls w @ d \<and>
        length (filter isAction d) \<le> 1 \<and>
        (d = [] \<or> (\<exists>a l. isAction a \<and> d = [a, AddTurn System l True])
           \<or> (\<exists>l1 l2. d = [AddTurn System l1 True, AddTurn System l2 True]))"
    by blast
  from a op cl st sp rc un c show ?thesis by blast
qed

theorem exact_rules_dispatch_witness:
  "onInputTranscription toLowerCaseAscii freshWorld (js ''Open settings.'') True = freshWorld \<and>
   calls (onInputTranscription toLowerCaseAscii freshWorld (js ''Hide settings'') True) =
     [ToggleSidebar, AddTurn System (recognized (js ''hide settings'')) True] \<and>
   onInputTranscription toLowerCaseAscii freshWorld (js ''good morning'') True = freshWorld"
proof -
  have n1: "\<forall>p \<in> set rememberPrefixes. \<not> startsWith (toLowerCaseAscii (trim (js ''Open settings.''))) p"
    by (simp add: rememberPrefixes_def startsWith_def toLowerCaseAscii_def trim_def isWhiteSpace_def js_def)
  have n2: "\<forall>p \<in> set rememberPrefixes. \<not> startsWith (toLowerCaseAscii (trim (js ''Hide settings''))) p"
    by (simp add: rememberPrefixes_def startsWith_def toLowerCaseAscii_def trim_def isWhiteSpace_def js_def)
  have n3: "\<forall>p \<in> set rememberPrefixes. \<not> startsWith (toLowerCaseAscii (trim (js ''good morning''))) p"
    by (simp add: rememberPrefixes_def startsWith_def toLowerCaseAscii_def trim_def isWhiteSpace_def js_def)
  have c1: "command toLowerCaseAscii (js ''Open settings.'') = js ''open settings''"
    by (simp add: command_def toLowerCaseAscii_def trim_def isWhiteSpace_def isPunct_def js_def)
  have c2: "command toLowerCaseAscii (js ''Hide settings'') = js ''hide settings''"
    by (simp add: command_def toLowerCaseAscii_def trim_def isWhiteSpace_def isPunct_def js_def)
  have c3: "command toLowerCaseAscii (js ''good morning'') \<notin> set exactCommands"
    by (simp add: command_def toLowerCaseAscii_def trim_def isWhiteSpace_def isPunct_def
        exactCommands_def openSettingsCommands_def closeSettingsCommands_def startCommands_def
        stopCommands_def recallCommands_def js_def)
  have d1: "dispatch exactRules (js ''open settings'') freshWorld = freshWorld"
    by (simp add: exactRules_def openSettingsCommands_def freshWorld_def)
  have d2: "calls (dispatch exactRules (js ''hide settings'') freshWorld) =
      [ToggleSidebar, AddTurn System (recognized (js ''hide settings'')) True]"
    by (simp add: exactRules_def openSettingsCommands_def closeSettingsCommands_def freshWorld_def
        addLog_def storeAddTurn_def toggleSidebar_def js_def)
  have t1: "onInputTranscription toLowerCaseAscii freshWorld (js ''Open settings.'') True =
      dispatch exactRules (command toLowerCaseAscii (js ''Open settings.'')) freshWorld"
    using n1 exact_rules_dispatch [of toLowerCaseAscii "js ''Open settings.''" freshWorld] by blast
  have t2: "onInputTranscription toLowerCaseAscii freshWorld (js ''Hide settings'') True =
      dispatch exactRules (command toLowerCaseAscii (js ''Hide settings'')) freshWorld"
    using n2 exact_rules_dispatch [of toLowerCaseAscii "js ''Hide settings''" freshWorld] by blast
  have t3: "onInputTranscription toLowerCaseAscii freshWorld (js ''good morning'') True = freshWorld"
    using n3 c3 exact_rules_dispatch [of toLowerCaseAscii "js ''good morning''" freshWorld] by blast
  show ?thesis
    unfolding t1 t2 t3 c1 c2 d1 d2 by simp
qed

section \<open>The stop command\<close>

lemma trim_stop: "trim (js ''stop'') = js ''stop''"
  by (simp add: trim_def isWhiteSpace_def js_def)

lemma stop_not_remembered:
  "rememberLoop lc (js ''stop'') rememberPrefixes w =
     (if lc (js ''stop'') = js ''stop'' then None else rememberLoop lc (js ''stop'') rememberPrefixes w)"
  by (simp add: rememberPrefixes_def startsWith_def js_def)

lemma stop_branch:
  "js ''stop'' \<notin> set openSettingsCommands \<and> js ''stop'' \<notin> set closeSettingsCommands \<and>
   js ''stop'' \<notin> set startCommands \<and> js ''stop'' \<in> set stopCommands"
  by (simp add: openSettingsCommands_def closeSettingsCommands_def startCommands_def
      stopCommands_def js_def)

lemma command_stop: "lc (js ''stop'') = js ''stop'' \<Longrightarrow> command lc (js ''stop'') = js ''stop''"
  by (simp add: command_def trim_stop) (simp add: js_def isPunct_def)

lemma stop_handler:
  assumes "lc (js ''stop'') = js ''stop''"
  shows "onInputTranscription lc w (js ''stop'') True =
     (if connected w then addLog (recognized (js ''stop'')) (disconnect w) else w)"
  using assms stop_branch stop_not_remembered [of lc w]
  by (simp add: onInputTranscription_def command_stop trim_stop Let_def)

text \<open>
  C6. For the finalized transcript \<open>stop\<close> (which lower-casing leaves as it is): in a
  connected session the handler makes exactly two calls, one \<open>disconnect\<close> and then one log
  entry, the log grows by that one system turn, and the session is no longer connected;
  in a session that is not connected the state is returned unchanged, so there is
  neither a disconnect nor a log entry.
\<close>

theorem stop_disconnects_once:
  assumes "lc (js ''stop'') = js ''stop''"
  shows "(connected w \<longrightarrow>
            calls (onInputTranscription lc w (js ''stop'') True) =
              calls w @ [Disconnect, AddTurn System (recognized (js ''stop'')) True] \<and>
            turns (logStore (onInputTranscription lc w (js ''stop'') True)) =
              turns (logStore w) @
                [\<lparr>role = System, text' = js ''Voice command recognized: '' @ [34] @ js ''stop'' @ [34],
                  isFinal = True, timestamp = clock w (clockReads w)\<rparr>] \<and>
            \<not> connected (onInputTranscription lc w (js ''stop'') True)) \<and>
         (\<not> connected w \<longrightarrow> onInputTranscription lc w (js ''stop'') True = w)"
  using assms stop_handler [of lc w]
  by (simp add: addLog_def storeAddTurn_def addTurn_def disconnect_def recognized_def quoted_def)

theorem stop_disconnects_once_witness:
  "calls (onInputTranscription toLowerCaseAscii liveWorld (js ''stop'') True) =
     [Disconnect, AddTurn System (recognized (js ''stop'')) True] \<and>
   \<not> connected (onInputTranscription toLowerCaseAscii liveWorld (js ''stop'') True) \<and>
   onInputTranscription toLowerCaseAscii freshWorld (js ''stop'') True = freshWorld"
proof -
  have h: "toLowerCaseAscii (js ''stop'') = js ''stop''"
    by (simp add: toLowerCaseAscii_def js_def)
  show ?thesis
    using h stop_disconnects_once [of toLowerCaseAscii liveWorld]
      stop_disconnects_once [of toLowerCaseAscii freshWorld]
    by (simp add: liveWorld_def freshWorld_def)
qed

section \<open>Tool calls\<close>

lemma toolCallLoop_responses:
  "snd (toolCallLoop sa fcs w rs) =
     rs @ map (\<lambda>fc. \<lparr>fr_id = fc_id fc, fr_name = fc_name fc, fr_response = okResult\<rparr>) fcs"
  by (induction fcs arbitrary: w rs) simp_all

lemma toolCallLoop_calls:
  "calls (fst (toolCallLoop sa fcs w rs)) =
     calls w @ map (\<lambda>fc. AddTurn System (triggerMessage sa fc) True) fcs"
  by (induction fcs arbitrary: w rs) (simp_all add: storeAddTurn_def)

lemma toolCallLoop_texts:
  "map text' (turns (logStore (fst (toolCallLoop sa fcs w rs)))) =
     map text' (turns (logStore w)) @ map (triggerMessage sa) fcs"
  by (induction fcs arbitrary: w rs) (simp_all add: storeAddTurn_def addTurn_def)

text \<open>
  C8. The calls of \<open>onToolCall\<close> on a batch are, in this order: one log entry for each
  invocation, holding its name and its serialised arguments; for a batch that is not
  empty, one log entry holding the serialised responses; and last the one call of
  \<open>sendToolResponse\<close>. The batch sent has one response for each invocation, in the order of
  the invocations, with the id and the name of the invocation and the fixed result \<open>ok\<close>.
\<close>

theorem onToolCall_logs_then_acknowledges:
  "calls (onToolCall sa sr fcs w) =
     calls w
       @ map (\<lambda>fc. AddTurn System
            (js ''Triggering function call: **'' @ fc_name fc @ js ''**'' @ [10] @ fence @ js ''json''
               @ [10] @ sa (fc_args fc) @ [10] @ fence) True) fcs
       @ (if fcs = [] then []
          else [AddTurn System (responseMessage sr
                  (map (\<lambda>fc. \<lparr>fr_id = fc_id fc, fr_name = fc_name fc, fr_response = okResult\<rparr>) fcs)) True])
       @ [SendToolResponse
            (map (\<lambda>fc. \<lparr>fr_id = fc_id fc, fr_name = fc_name fc,
                         fr_response = [(js ''result'', js ''ok'')]\<rparr>) fcs)] \<and>
   map text' (turns (logStore (onToolCall sa sr fcs w))) =
     map text' (turns (logStore w)) @ map (triggerMessage sa) fcs
       @ (if fcs = [] then []
          else [responseMessage sr
                  (map (\<lambda>fc. \<lparr>fr_id = fc_id fc, fr_name = fc_name fc, fr_response = okResult\<rparr>) fcs)])"
proof -
  obtain w1 rs where loop: "toolCallLoop sa fcs w [] = (w1, rs)"
    by (cases "toolCallLoop sa fcs w []") simp
  have rs: "rs = map (\<lambda>fc. \<lparr>fr_id = fc_id fc, fr_name = fc_name fc, fr_response = okResult\<rparr>) fcs"
    using toolCallLoop_responses [of sa fcs w "[]"] loop by simp
  have c1: "calls w1 = calls w @ map (\<lambda>fc. AddTurn System (triggerMessage sa fc) True) fcs"
    using toolCallLoop_calls [of sa fcs w "[]"] loop by simp
  have t1: "map text' (turns (logStore w1)) =
      map text' (turns (logStore w)) @ map (triggerMessage sa) fcs"
    using toolCallLoop_texts [of sa fcs w "[]"] loop by simp
  have tm: "(\<lambda>fc. AddTurn System (triggerMessage sa fc) True) =
      (\<lambda>fc. AddTurn System
            (js ''Triggering function call: **'' @ fc_name fc @ js ''**'' @ [10] @ fence @ js ''json''
               @ [10] @ sa (fc_args fc) @ [10] @ fence) True)"
    by (simp add: triggerMessage_def)
  show ?thesis
    using c1 t1
    by (simp add: onToolCall_def loop rs sendToolResponse_def storeAddTurn_def addTurn_def
        okResult_def tm)
qed

theorem onToolCall_logs_then_acknowledges_witness:
  "calls (onToolCall (\<lambda>n. js ''{}'') (\<lambda>rs. js ''[]'') [lookupOrder] freshWorld) =
     [AddTurn System (triggerMessage (\<lambda>n. js ''{}'') lookupOrder) True,
      AddTurn System (responseMessage (\<lambda>rs. js ''[]'')
         [\<lparr>fr_id = js ''call-1'', fr_name = js ''lookup_order'', fr_response = okResult\<rparr>]) True,
      SendToolResponse
         [\<lparr>fr_id = js ''call-1'', fr_name = js ''lookup_order'', fr_response = okResult\<rparr>]]"
  using onToolCall_logs_then_acknowledges [of "\<lambda>n. js ''{}''" "\<lambda>rs. js ''[]''" "[lookupOrder]" freshWorld]
  by (simp add: lookupOrder_def freshWorld_def triggerMessage_def okResult_def)

section \<open>The text-generation side channel\<close>

lemma generateText_no_exception:
  "(\<forall>e. generateText newClient generateContent prompt \<noteq> Inl e) \<and>
   ((\<exists>e. newClient = Inl e) \<or> (\<exists>e. generateContent prompt = Inl e) \<longrightarrow>
      generateText newClient generateContent prompt = Inr (Some generateFallback)) \<and>
   (newClient = Inr () \<and> generateContent prompt = Inr r \<longrightarrow>
      generateText newClient generateContent prompt = Inr r)"
  by (auto simp add: generateText_def split: sum.splits)

text \<open>
  C9. The claim holds in that no exception leaves \<open>generateText\<close>, and fails in what is
  returned: for a request that succeeds with a response carrying no text, the promise
  resolves to \<open>undefined\<close>, which is neither a generated text nor the fallback string.
\<close>

theorem generateText_undefined_text:
  "generateText (Inr () :: nat + unit) (\<lambda>p. Inr None) (js ''Tell me a story'') = Inr None \<and>
   generateText (Inr () :: nat + unit) (\<lambda>p. Inr None) (js ''Tell me a story'')
     \<noteq> Inr (Some generateFallback)"
  by (simp add: generateText_def)

end
